theory Spec2Isabelle
  imports Complex_Main
begin

section \<open>Python values and builtins used by scripts/extract-gif-frames.py\<close>

text \<open>
  The script works on unbounded Python integers (\<open>int\<close>), on strings and on the
  filesystem. Every way of leaving the script other than falling off its end is a value
  of \<open>py_exc\<close>: \<open>SystemExit n\<close> is \<^verbatim>\<open>sys.exit(n)\<close>; the other constructors are
  exceptions that nothing in the script catches, so the interpreter prints a traceback
  and terminates with status 1.
\<close>

datatype py_exc = SystemExit int | ZeroDivisionError | ValueError | OpenError

text \<open>The status the interpreter process terminates with.\<close>

definition exit_status :: "py_exc + 'a \<Rightarrow> int" where
  "exit_status r =
     (case r of
        Inr v \<Rightarrow> 0
      | Inl (SystemExit n) \<Rightarrow> n
      | Inl ZeroDivisionError \<Rightarrow> 1
      | Inl ValueError \<Rightarrow> 1
      | Inl OpenError \<Rightarrow> 1)"

text \<open>\<^verbatim>\<open>a // b\<close>: floor division, which raises when the divisor is zero.\<close>

definition floordiv :: "int \<Rightarrow> int \<Rightarrow> py_exc + int" where
  "floordiv a b = (if b = 0 then Inl ZeroDivisionError else Inr (a div b))"

text \<open>
  \<^verbatim>\<open>range(start, stop, step)\<close>, as the list of the values it yields: counting up
  while below \<open>stop\<close> for a positive step, counting down while above \<open>stop\<close> for a
  negative one; a zero step raises \<^verbatim>\<open>ValueError\<close>.
\<close>

function range_from :: "int \<Rightarrow> int \<Rightarrow> int \<Rightarrow> int list" where
  "range_from i stop step =
     (if 0 < step \<and> i < stop then i # range_from (i + step) stop step
      else if step < 0 \<and> stop < i then i # range_from (i + step) stop step
      else [])"
  by pat_completeness auto
termination
  by (relation "measure (\<lambda>(i, stop, step). nat (if 0 < step then stop - i else i - stop))") auto

declare range_from.simps [simp del]

definition py_range :: "int \<Rightarrow> int \<Rightarrow> int \<Rightarrow> py_exc + int list" where
  "py_range start stop step =
     (if step = 0 then Inl ValueError else Inr (range_from start stop step))"

text \<open>\<^verbatim>\<open>str(n)\<close> of an integer, and the format specification \<^verbatim>\<open>03d\<close>.\<close>

fun str_nat :: "nat \<Rightarrow> string" where
  "str_nat n =
     (if n < 10 then [''0123456789'' ! n]
      else str_nat (n div 10) @ [''0123456789'' ! (n mod 10)])"

declare str_nat.simps [simp del]

definition str_int :: "int \<Rightarrow> string" where
  "str_int i = (if i < 0 then ''-'' @ str_nat (nat (- i)) else str_nat (nat i))"

definition zfill :: "nat \<Rightarrow> string \<Rightarrow> string" where
  "zfill width s = replicate (width - length s) CHR ''0'' @ s"

definition fmt_03d :: "int \<Rightarrow> string" where
  "fmt_03d i =
     (if i < 0 then ''-'' @ zfill 2 (str_nat (nat (- i))) else zfill 3 (str_nat (nat i)))"

text \<open>
  \<^verbatim>\<open>os.path.splitext(p)[0]\<close> and \<^verbatim>\<open>os.path.join(a, b)\<close> of \<^verbatim>\<open>posixpath\<close>. The
  extension starts at the last dot of the last path component, unless that component
  consists of leading dots up to there.
\<close>

definition rfind :: "char \<Rightarrow> string \<Rightarrow> int" where
  "rfind c p =
     (case filter (\<lambda>j. p ! j = c) (rev [0..<length p]) of
        [] \<Rightarrow> - 1
      | j # js \<Rightarrow> int j)"

definition splitext_root :: "string \<Rightarrow> string" where
  "splitext_root p =
     (let sepIndex = rfind CHR ''/'' p;
          dotIndex = rfind CHR ''.'' p
      in if sepIndex < dotIndex
            \<and> filter (\<lambda>j. p ! j \<noteq> CHR ''.'') [nat (sepIndex + 1)..<nat dotIndex] \<noteq> []
         then take (nat dotIndex) p
         else p)"

definition path_join :: "string \<Rightarrow> string \<Rightarrow> string" where
  "path_join a b =
     (if b \<noteq> [] \<and> hd b = CHR ''/'' then b
      else if a = [] \<or> last a = CHR ''/'' then a @ b
      else a @ ''/'' @ b)"

section \<open>The decoder and the filesystem\<close>

text \<open>
  What the imaging library shows of an opened container: the attribute \<^verbatim>\<open>n_frames\<close>
  (absent for formats without animation support) and, for a frame index, what
  \<^verbatim>\<open>seek\<close> makes active: the pixels \<^verbatim>\<open>convert("RGBA")\<close> returns and the
  \<^verbatim>\<open>duration\<close> entry of \<^verbatim>\<open>img.info\<close>, if there is one. Decoding is deterministic.
\<close>

record frame =
  rgba :: "nat list"
  duration :: "int option"

record image =
  n_frames :: "int option"
  frame_at :: "int \<Rightarrow> frame"

text \<open>
  The world the script runs in. \<open>existing\<close> are the paths for which
  \<^verbatim>\<open>os.path.exists\<close> holds, \<open>decoder\<close> is what \<^verbatim>\<open>Image.open\<close> returns
  (\<open>None\<close> where it raises), \<open>dirs\<close> are the directories, \<open>files\<close> is the journal of
  still images saved so far, oldest first, and \<open>stdout\<close> the lines printed. A path holds
  what was saved to it last. Directory creation and saving succeed: failures of the
  filesystem itself (permissions, a full disk) are outside this model.
\<close>

record world =
  existing :: "string set"
  decoder :: "string \<Rightarrow> image option"
  dirs :: "string set"
  files :: "(string \<times> nat list) list"
  stdout :: "string list"

definition py_print :: "world \<Rightarrow> string \<Rightarrow> world" where
  "py_print w line = w\<lparr>stdout := stdout w @ [line]\<rparr>"

definition makedirs :: "world \<Rightarrow> string \<Rightarrow> world" where
  "makedirs w d = w\<lparr>existing := insert d (existing w), dirs := insert d (dirs w)\<rparr>"

definition save :: "world \<Rightarrow> string \<Rightarrow> nat list \<Rightarrow> world" where
  "save w p png = w\<lparr>existing := insert p (existing w), files := files w @ [(p, png)]\<rparr>"

definition file_at :: "world \<Rightarrow> string \<Rightarrow> nat list option" where
  "file_at w = map_of (rev (files w))"

text \<open>The files saved between an earlier world and a later one, in the order of saving.\<close>

definition saved :: "world \<Rightarrow> world \<Rightarrow> (string \<times> nat list) list" where
  "saved w w' = drop (length (files w)) (files w')"

section \<open>extract\_frames\<close>

text \<open>Lines 28 and 29: the stride, computed when \<^verbatim>\<open>skip is None\<close>.\<close>

definition resolve_skip :: "int \<Rightarrow> int \<Rightarrow> int option \<Rightarrow> py_exc + int" where
  "resolve_skip total_frames max_frames skip =
     (case skip of
        None \<Rightarrow>
          (case floordiv total_frames max_frames of
             Inl e \<Rightarrow> Inl e
           | Inr q \<Rightarrow> Inr (max 1 q))
      | Some s \<Rightarrow> Inr s)"

text \<open>Lines 32 to 34: the output directory, derived when \<^verbatim>\<open>output_dir is None\<close>.\<close>

definition resolve_output_dir :: "string \<Rightarrow> string option \<Rightarrow> string" where
  "resolve_output_dir gif_path output_dir =
     (case output_dir of
        None \<Rightarrow> splitext_root gif_path @ ''_frames''
      | Some d \<Rightarrow> d)"

text \<open>
  Lines 48 to 56, the body of the loop for the candidate index \<open>i\<close>: seek, convert,
  read the duration, save under the name built from the counter, the index and the
  duration, and count.
\<close>

definition frame_name :: "int \<Rightarrow> int \<Rightarrow> int \<Rightarrow> string" where
  "frame_name extracted i d =
     ''frame_'' @ fmt_03d extracted @ ''_f'' @ str_int i @ ''_d'' @ str_int d @ ''ms.png''"

definition frame_duration :: "image \<Rightarrow> int \<Rightarrow> int" where
  "frame_duration img i = (case duration (frame_at img i) of None \<Rightarrow> 0 | Some d \<Rightarrow> d)"

definition loop_body :: "image \<Rightarrow> string \<Rightarrow> int \<Rightarrow> world \<times> int \<Rightarrow> world \<times> int" where
  "loop_body img output_dir i s =
     (case s of (w, extracted) \<Rightarrow>
        let frame = rgba (frame_at img i);
            d = frame_duration img i;
            out_path = path_join output_dir (frame_name extracted i d)
        in (save w out_path frame, extracted + 1))"

text \<open>
  Lines 44 to 56: the loop over the candidates that \<^verbatim>\<open>range\<close> yields, with the
  \<^verbatim>\<open>break\<close> at its head.
\<close>

fun frame_loop :: "image \<Rightarrow> string \<Rightarrow> int \<Rightarrow> int list \<Rightarrow> world \<times> int \<Rightarrow> world \<times> int" where
  "frame_loop img output_dir max_frames [] s = s"
| "frame_loop img output_dir max_frames (i # rest) s =
     (if max_frames \<le> snd s then s
      else frame_loop img output_dir max_frames rest (loop_body img output_dir i s))"

text \<open>
  The same loop, listing every state in which its head is reached, and the state in which
  it is left without a \<^verbatim>\<open>break\<close>.
\<close>

fun loop_states :: "image \<Rightarrow> string \<Rightarrow> int \<Rightarrow> int list \<Rightarrow> world \<times> int \<Rightarrow> (world \<times> int) list" where
  "loop_states img output_dir max_frames [] s = [s]"
| "loop_states img output_dir max_frames (i # rest) s =
     s # (if max_frames \<le> snd s then []
          else loop_states img output_dir max_frames rest (loop_body img output_dir i s))"

definition extract_frames ::
  "string \<Rightarrow> int \<Rightarrow> int option \<Rightarrow> string option \<Rightarrow> world \<Rightarrow> (py_exc + string \<times> int) \<times> world" where
  "extract_frames gif_path max_frames skip output_dir w =
     (if gif_path \<notin> existing w then
        (Inl (SystemExit 1), py_print w (''Error: File not found: '' @ gif_path))
      else
        (case decoder w gif_path of
           None \<Rightarrow> (Inl OpenError, w)
         | Some img \<Rightarrow>
             (let total_frames = (case n_frames img of None \<Rightarrow> 1 | Some n \<Rightarrow> n) in
              if total_frames = 1 then
                (Inl (SystemExit 1), py_print w ''Error: Not an animated GIF (only 1 frame)'')
              else
                (case resolve_skip total_frames max_frames skip of
                   Inl e \<Rightarrow> (Inl e, w)
                 | Inr skip' \<Rightarrow>
                     (let output_dir' = resolve_output_dir gif_path output_dir;
                          w1 = makedirs w output_dir';
                          w2 = py_print w1 (''GIF: '' @ gif_path);
                          w3 = py_print w2 (''Total frames: '' @ str_int total_frames);
                          w4 = py_print w3 (''Skip: every '' @ str_int skip' @ '' frame(s)'');
                          w5 = py_print w4 (''Output: '' @ output_dir');
                          w6 = py_print w5 ''---''
                      in (case py_range 0 total_frames skip' of
                            Inl e \<Rightarrow> (Inl e, w6)
                          | Inr candidates \<Rightarrow>
                              (case frame_loop img output_dir' max_frames candidates (w6, 0) of
                                 (w7, extracted) \<Rightarrow>
                                   (Inr (output_dir', extracted),
                                    py_print w7 (''Extracted '' @ str_int extracted
                                                 @ '' frames to '' @ output_dir')))))))))"

section \<open>The command line\<close>

text \<open>
  Lines 72 to 85: the scanner over \<^verbatim>\<open>sys.argv[2:]\<close>, on the tokens from position
  \<open>i\<close> on. The state is \<open>(max_frames, skip, output_dir)\<close>. The builtin \<^verbatim>\<open>int\<close> is
  the parameter \<open>py_int\<close>, \<open>None\<close> where it raises \<^verbatim>\<open>ValueError\<close>.
\<close>

fun parse_args ::
  "(string \<Rightarrow> int option) \<Rightarrow> string list \<Rightarrow> int \<times> int option \<times> string option
     \<Rightarrow> py_exc + int \<times> int option \<times> string option" where
  "parse_args py_int [] st = Inr st"
| "parse_args py_int [a] st = Inr st"
| "parse_args py_int (a # v # rest) (max_frames, skip, output_dir) =
     (if a = ''--max-frames'' then
        (case py_int v of
           None \<Rightarrow> Inl ValueError
         | Some n \<Rightarrow> parse_args py_int rest (n, skip, output_dir))
      else if a = ''--skip'' then
        (case py_int v of
           None \<Rightarrow> Inl ValueError
         | Some n \<Rightarrow> parse_args py_int rest (max_frames, Some n, output_dir))
      else if a = ''--output-dir'' then
        parse_args py_int rest (max_frames, skip, Some v)
      else parse_args py_int (v # rest) (max_frames, skip, output_dir))"

text \<open>
  Lines 62 to 87: the script run on \<^verbatim>\<open>sys.argv\<close>. \<open>doc\<close> is the module's
  docstring.
\<close>

definition main ::
  "string \<Rightarrow> (string \<Rightarrow> int option) \<Rightarrow> string list \<Rightarrow> world \<Rightarrow> (py_exc + string \<times> int) \<times> world" where
  "main doc py_int argv w =
     (if length argv < 2 then (Inl (SystemExit 1), py_print w doc)
      else
        (case parse_args py_int (drop 2 argv) (30, None, None) of
           Inl e \<Rightarrow> (Inl e, w)
         | Inr (max_frames, skip, output_dir) \<Rightarrow>
             extract_frames (argv ! 1) max_frames skip output_dir w))"

section \<open>Reading a decimal numeral back\<close>

text \<open>
  The inverse of \<open>str_nat\<close> on digit strings, with which two file names are told apart
  by the sequence index they carry.
\<close>

definition digit_of :: "char \<Rightarrow> nat" where
  "digit_of c = length (takeWhile (\<lambda>d. d \<noteq> c) ''0123456789'')"

definition digits_value :: "string \<Rightarrow> nat" where
  "digits_value s = foldl (\<lambda>a c. 10 * a + digit_of c) 0 s"

definition is_digit :: "char \<Rightarrow> bool" where
  "is_digit c = (c \<in> set ''0123456789'')"

section \<open>The scenarios of the specification\<close>

text \<open>
  An animation of \<open>n\<close> frames, whose frame \<open>i\<close> has the single pixel value \<open>i\<close> and a
  duration of 40 ms at even indices and none at odd ones, and a disk that holds one
  container and nothing else.
\<close>

definition animation :: "int \<Rightarrow> image" where
  "animation n =
     \<lparr>n_frames = Some n,
      frame_at = (\<lambda>i. \<lparr>rgba = [nat i], duration = (if even i then Some 40 else None)\<rparr>)\<rparr>"

definition disk :: "string \<Rightarrow> image \<Rightarrow> world" where
  "disk p img =
     \<lparr>existing = {p},
      decoder = (\<lambda>q. if q = p then Some img else None),
      dirs = {},
      files = [],
      stdout = []\<rparr>"

section \<open>Auxiliary facts\<close>

subsection \<open>The values a range yields\<close>


lemma range_from_pos:
  "0 < step \<Longrightarrow>
   range_from i stop step = map (\<lambda>k. i + int k * step) [0..<nat (- ((i - stop) div step))]"
proof (induction i stop step rule: range_from.induct)
  case (1 i stop step)
  show ?case
  proof (cases "i < stop")
    case True
    have "i + step - stop = (i - stop) + step" by simp
    then have q: "(i + step - stop) div step = (i - stop) div step + 1"
      using "1.prems" by (simp only: div_add_self2)
    have neg: "(i - stop) div step < 0"
      using True "1.prems" by (simp add: pos_imp_zdiv_neg_iff)
    define n where "n = nat (- ((i + step - stop) div step))"
    have n: "nat (- ((i - stop) div step)) = Suc n"
      using q neg by (simp add: n_def)
    have "range_from i stop step = i # range_from (i + step) stop step"
      using True "1.prems" by (simp add: range_from.simps [of i stop step])
    also have "range_from (i + step) stop step = map (\<lambda>k. i + step + int k * step) [0..<n]"
      using "1.IH"(1) True "1.prems" by (simp add: n_def)
    also have "i # map (\<lambda>k. i + step + int k * step) [0..<n]
                 = map (\<lambda>k. i + int k * step) [0..<Suc n]"
      by (simp add: upt_conv_Cons map_Suc_upt [symmetric] algebra_simps del: upt_Suc)
    finally show ?thesis by (simp only: n)
  next
    case False
    then have "0 \<le> (i - stop) div step"
      using "1.prems" by (simp add: pos_imp_zdiv_nonneg_iff)
    then show ?thesis
      using False "1.prems" by (simp add: range_from.simps [of i stop step])
  qed
qed

lemma range_from_neg: "step < 0 \<Longrightarrow> i \<le> stop \<Longrightarrow> range_from i stop step = []"
  by (simp add: range_from.simps [of i stop step])

lemma less_10_cases:
  "n < 10 \<Longrightarrow> n = 0 \<or> n = 1 \<or> n = 2 \<or> n = 3 \<or> n = 4 \<or> n = 5 \<or> n = 6 \<or> n = 7 \<or> n = 8 \<or> n = (9::nat)"
  by arith

lemma digit_char_value: "n < 10 \<Longrightarrow> digit_of (''0123456789'' ! n) = n"
  by (drule less_10_cases) (elim disjE; simp add: digit_of_def)

lemma digit_char_is_digit: "n < 10 \<Longrightarrow> is_digit (''0123456789'' ! n)"
  by (drule less_10_cases) (elim disjE; simp add: is_digit_def)

lemma digits_value_snoc:
  "digits_value (s @ [c]) = 10 * digits_value s + digit_of c"
  by (simp add: digits_value_def)

lemma digits_value_str_nat: "digits_value (str_nat n) = n"
proof (induction n rule: str_nat.induct)
  case (1 n)
  show ?case
  proof (cases "n < 10")
    case True
    then show ?thesis
      by (simp add: str_nat.simps [of n] digits_value_def digit_char_value)
  next
    case False
    then have "digits_value (str_nat (n div 10)) = n div 10" using "1.IH" by simp
    then show ?thesis
      using False by (simp add: str_nat.simps [of n] digits_value_snoc digit_char_value)
  qed
qed

lemma str_nat_digits: "c \<in> set (str_nat n) \<Longrightarrow> is_digit c"
proof (induction n rule: str_nat.induct)
  case (1 n)
  show ?case
  proof (cases "n < 10")
    case True
    then show ?thesis
      using "1.prems" by (simp add: str_nat.simps [of n] digit_char_is_digit)
  next
    case False
    then show ?thesis
      using "1.prems" "1.IH" by (auto simp: str_nat.simps [of n] digit_char_is_digit)
  qed
qed

lemma digits_value_zeros: "digits_value (replicate k CHR ''0'' @ s) = digits_value s"
  by (induction k) (simp_all add: digits_value_def digit_of_def)

lemma fmt_03d_nat: "fmt_03d (int k) = zfill 3 (str_nat k)"
  by (simp add: fmt_03d_def)

lemma digits_value_fmt_03d: "digits_value (fmt_03d (int k)) = k"
  by (simp add: fmt_03d_nat zfill_def digits_value_zeros digits_value_str_nat)

lemma fmt_03d_digits: "c \<in> set (fmt_03d (int k)) \<Longrightarrow> is_digit c"
  by (auto simp: fmt_03d_nat zfill_def is_digit_def dest: str_nat_digits [unfolded is_digit_def])

lemma takeWhile_digits_frame_name:
  "takeWhile is_digit (fmt_03d (int k) @ ''_f'' @ rest) = fmt_03d (int k)"
proof -
  have "takeWhile is_digit (fmt_03d (int k) @ ''_f'' @ rest)
          = fmt_03d (int k) @ takeWhile is_digit (''_f'' @ rest)"
    by (rule takeWhile_append2) (rule fmt_03d_digits)
  then show ?thesis by (simp add: is_digit_def)
qed

lemma path_join_frame_name:
  "path_join d (frame_name e i t)
     = (if d = [] \<or> last d = CHR ''/'' then d else d @ ''/'') @ frame_name e i t"
  by (simp add: path_join_def frame_name_def)

lemma frame_name_inj:
  assumes "path_join d (frame_name (int k) i t) = path_join d (frame_name (int k') i' t')"
  shows "k = k'"
proof -
  from assms have "frame_name (int k) i t = frame_name (int k') i' t'"
    by (simp only: path_join_frame_name same_append_eq)
  then have "fmt_03d (int k) @ ''_f'' @ (str_int i @ ''_d'' @ str_int t @ ''ms.png'')
           = fmt_03d (int k') @ ''_f'' @ (str_int i' @ ''_d'' @ str_int t' @ ''ms.png'')"
    by (simp add: frame_name_def)
  then have "takeWhile is_digit (fmt_03d (int k) @ ''_f'' @ (str_int i @ ''_d'' @ str_int t @ ''ms.png''))
           = takeWhile is_digit (fmt_03d (int k') @ ''_f'' @ (str_int i' @ ''_d'' @ str_int t' @ ''ms.png''))"
    by (rule arg_cong)
  then have "fmt_03d (int k) = fmt_03d (int k')"
    by (simp only: takeWhile_digits_frame_name)
  then have "digits_value (fmt_03d (int k)) = digits_value (fmt_03d (int k'))"
    by (rule arg_cong)
  then show ?thesis by (simp only: digits_value_fmt_03d)
qed


lemma loop_body_simps:
  "snd (loop_body img d i (w, e)) = e + 1"
  "files (fst (loop_body img d i (w, e)))
     = files w @ [(path_join d (frame_name e i (frame_duration img i)), rgba (frame_at img i))]"
  "dirs (fst (loop_body img d i (w, e))) = dirs w"
  "stdout (fst (loop_body img d i (w, e))) = stdout w"
  "decoder (fst (loop_body img d i (w, e))) = decoder w"
  by (simp_all add: loop_body_def save_def Let_def)

lemma frame_loop_count:
  "e \<le> m \<Longrightarrow> snd (frame_loop img d m cs (w, e)) = e + min (int (length cs)) (m - e)"
proof (induction cs arbitrary: w e)
  case Nil
  then show ?case by simp
next
  case (Cons i cs)
  show ?case
  proof (cases "m \<le> e")
    case True
    with Cons.prems show ?thesis by simp
  next
    case False
    obtain w' where b: "loop_body img d i (w, e) = (w', e + 1)"
      by (simp add: loop_body_def Let_def)
    from False have "e + 1 \<le> m" by simp
    then have "snd (frame_loop img d m cs (w', e + 1))
                 = e + 1 + min (int (length cs)) (m - (e + 1))"
      by (rule Cons.IH)
    with False b show ?thesis by simp
  qed
qed

lemma frame_loop_files:
  "files (fst (frame_loop img d m cs (w, int n)))
     = files w @ map (\<lambda>(k, i). (path_join d (frame_name (int k) i (frame_duration img i)),
                                  rgba (frame_at img i)))
                   (enumerate n (take (nat (m - int n)) cs))"
proof (induction cs arbitrary: w n)
  case Nil
  then show ?case by simp
next
  case (Cons i cs)
  show ?case
  proof (cases "m \<le> int n")
    case True
    then show ?thesis by simp
  next
    case False
    define w' where "w' = fst (loop_body img d i (w, int n))"
    have b: "loop_body img d i (w, int n) = (w', int (Suc n))"
      by (simp add: w'_def loop_body_def Let_def)
    have "nat (m - int n) = Suc (nat (m - int (Suc n)))"
      using False by simp
    then have t: "take (nat (m - int n)) (i # cs) = i # take (nat (m - int (Suc n))) cs"
      by (simp only: take_Suc_Cons)
    have "files (fst (frame_loop img d m cs (w', int (Suc n))))
            = files w' @ map (\<lambda>(k, i). (path_join d (frame_name (int k) i (frame_duration img i)),
                                          rgba (frame_at img i)))
                          (enumerate (Suc n) (take (nat (m - int (Suc n))) cs))"
      by (rule Cons.IH)
    moreover have "files w' = files w @ [(path_join d (frame_name (int n) i (frame_duration img i)),
                                          rgba (frame_at img i))]"
      by (simp add: w'_def loop_body_simps)
    ultimately show ?thesis
      using False b by (simp add: t del: of_nat_Suc)
  qed
qed

lemma frame_loop_unchanged:
  "dirs (fst (frame_loop img d m cs s)) = dirs (fst s)
   \<and> stdout (fst (frame_loop img d m cs s)) = stdout (fst s)
   \<and> decoder (fst (frame_loop img d m cs s)) = decoder (fst s)"
proof (induction cs arbitrary: s)
  case Nil
  then show ?case by simp
next
  case (Cons i cs)
  obtain w e where s: "s = (w, e)" by (cases s)
  show ?case
    using Cons.IH [of "loop_body img d i (w, e)"] by (simp add: s loop_body_simps)
qed

lemma loop_states_nonempty: "loop_states img d m cs s \<noteq> []"
  by (cases cs) simp_all

lemma loop_states_last:
  "last (loop_states img d m cs s) = frame_loop img d m cs s"
  by (induction cs arbitrary: s) (simp_all add: loop_states_nonempty)

lemma loop_states_bounded:
  "e \<le> m \<Longrightarrow> s \<in> set (loop_states img d m cs (w, e)) \<Longrightarrow> snd s \<le> m"
proof (induction cs arbitrary: w e)
  case Nil
  then show ?case by simp
next
  case (Cons i cs)
  show ?case
  proof (cases "m \<le> e")
    case True
    with Cons.prems show ?thesis by simp
  next
    case False
    obtain w' where b: "loop_body img d i (w, e) = (w', e + 1)"
      by (simp add: loop_body_def Let_def)
    from False have le: "e + 1 \<le> m" by simp
    from Cons.prems False b
    have "s = (w, e) \<or> s \<in> set (loop_states img d m cs (w', e + 1))" by simp
    then show ?thesis
    proof
      assume "s = (w, e)"
      with Cons.prems show ?thesis by simp
    next
      assume "s \<in> set (loop_states img d m cs (w', e + 1))"
      with le show ?thesis by (rule Cons.IH)
    qed
  qed
qed


lemma frame_loop_count_any:
  "snd (frame_loop img d m cs (w, e))
     = (if e \<le> m then e + min (int (length cs)) (m - e) else e)"
proof (cases "e \<le> m")
  case True
  then show ?thesis by (simp add: frame_loop_count)
next
  case False
  then show ?thesis by (cases cs) simp_all
qed

lemma extract_frames_not_found:
  "gif_path \<notin> existing w \<Longrightarrow>
   extract_frames gif_path m skip od w
     = (Inl (SystemExit 1), py_print w (''Error: File not found: '' @ gif_path))"
  by (simp add: extract_frames_def)

lemma extract_frames_open_error:
  "gif_path \<in> existing w \<Longrightarrow> decoder w gif_path = None \<Longrightarrow>
   extract_frames gif_path m skip od w = (Inl OpenError, w)"
  by (simp add: extract_frames_def)

lemma extract_frames_single:
  "gif_path \<in> existing w \<Longrightarrow> decoder w gif_path = Some img \<Longrightarrow>
   (case n_frames img of None \<Rightarrow> 1 | Some n \<Rightarrow> n) = 1 \<Longrightarrow>
   extract_frames gif_path m skip od w
     = (Inl (SystemExit 1), py_print w ''Error: Not an animated GIF (only 1 frame)'')"
  by (simp add: extract_frames_def)

lemma extract_frames_skip_error:
  "gif_path \<in> existing w \<Longrightarrow> decoder w gif_path = Some img \<Longrightarrow>
   (case n_frames img of None \<Rightarrow> 1 | Some n \<Rightarrow> n) = t \<Longrightarrow> t \<noteq> 1 \<Longrightarrow>
   resolve_skip t m skip = Inl e \<Longrightarrow>
   extract_frames gif_path m skip od w = (Inl e, w)"
  by (simp add: extract_frames_def)

lemma extract_frames_zero_step:
  assumes "gif_path \<in> existing w" and "decoder w gif_path = Some img"
    and "(case n_frames img of None \<Rightarrow> 1 | Some n \<Rightarrow> n) = t" and "t \<noteq> 1"
    and "resolve_skip t m skip = Inr 0"
  shows "fst (extract_frames gif_path m skip od w) = Inl ValueError"
    and "files (snd (extract_frames gif_path m skip od w)) = files w"
    and "dirs (snd (extract_frames gif_path m skip od w))
           = insert (resolve_output_dir gif_path od) (dirs w)"
    and "existing (snd (extract_frames gif_path m skip od w))
           = insert (resolve_output_dir gif_path od) (existing w)"
    and "decoder (snd (extract_frames gif_path m skip od w)) = decoder w"
  using assms
  by (simp_all add: extract_frames_def Let_def py_range_def py_print_def makedirs_def)

lemma extract_frames_loop:
  assumes "gif_path \<in> existing w" and "decoder w gif_path = Some img"
    and "(case n_frames img of None \<Rightarrow> 1 | Some n \<Rightarrow> n) = t" and "t \<noteq> 1"
    and "resolve_skip t m skip = Inr s" and "s \<noteq> 0"
  shows "fst (extract_frames gif_path m skip od w)
           = Inr (resolve_output_dir gif_path od,
                  if 0 \<le> m then min (int (length (range_from 0 t s))) m else 0)"
    and "files (snd (extract_frames gif_path m skip od w))
           = files w @ map (\<lambda>(k, i). (path_join (resolve_output_dir gif_path od)
                                           (frame_name (int k) i (frame_duration img i)),
                                        rgba (frame_at img i)))
                         (enumerate 0 (take (nat m) (range_from 0 t s)))"
    and "dirs (snd (extract_frames gif_path m skip od w))
           = insert (resolve_output_dir gif_path od) (dirs w)"
    and "decoder (snd (extract_frames gif_path m skip od w)) = decoder w"
proof -
  define d where "d = resolve_output_dir gif_path od"
  define w6 where "w6 = py_print (py_print (py_print (py_print (py_print (makedirs w d)
      (''GIF: '' @ gif_path)) (''Total frames: '' @ str_int t))
      (''Skip: every '' @ str_int s @ '' frame(s)'')) (''Output: '' @ d)) ''---''"
  define r where "r = frame_loop img d m (range_from 0 t s) (w6, 0)"
  have run: "extract_frames gif_path m skip od w
               = (Inr (d, snd r),
                  py_print (fst r) (''Extracted '' @ str_int (snd r) @ '' frames to '' @ d))"
    using assms
    by (simp add: extract_frames_def Let_def py_range_def d_def w6_def r_def split: prod.split)
  have cnt: "snd r = (if 0 \<le> m then min (int (length (range_from 0 t s))) m else 0)"
    unfolding r_def by (simp add: frame_loop_count_any)
  have fs: "files (fst r) = files w6 @ map (\<lambda>(k, i). (path_join d
                                           (frame_name (int k) i (frame_duration img i)),
                                        rgba (frame_at img i)))
                         (enumerate 0 (take (nat m) (range_from 0 t s)))"
    unfolding r_def using frame_loop_files [of img d m "range_from 0 t s" w6 0] by simp
  have un: "dirs (fst r) = dirs w6" "decoder (fst r) = decoder w6"
    unfolding r_def using frame_loop_unchanged [of img d m "range_from 0 t s" "(w6, 0)"]
    by simp_all
  have w6: "files w6 = files w" "dirs w6 = insert d (dirs w)" "decoder w6 = decoder w"
    by (simp_all add: w6_def py_print_def makedirs_def)
  show "fst (extract_frames gif_path m skip od w)
           = Inr (resolve_output_dir gif_path od,
                  if 0 \<le> m then min (int (length (range_from 0 t s))) m else 0)"
    by (simp add: run cnt d_def)
  show "files (snd (extract_frames gif_path m skip od w))
           = files w @ map (\<lambda>(k, i). (path_join (resolve_output_dir gif_path od)
                                           (frame_name (int k) i (frame_duration img i)),
                                        rgba (frame_at img i)))
                         (enumerate 0 (take (nat m) (range_from 0 t s)))"
    by (simp add: run py_print_def fs w6 d_def [symmetric])
  show "dirs (snd (extract_frames gif_path m skip od w))
           = insert (resolve_output_dir gif_path od) (dirs w)"
    by (simp add: run py_print_def un w6 d_def [symmetric])
  show "decoder (snd (extract_frames gif_path m skip od w)) = decoder w"
    by (simp add: run py_print_def un w6)
qed

subsection \<open>What a run over an animated container saves\<close>


lemma range_from_stride:
  "1 \<le> s \<Longrightarrow>
   range_from 0 t s = map (\<lambda>k. int k * s) [0..<nat \<lceil>real_of_int t / real_of_int s\<rceil>]"
  using range_from_pos [of s 0 t] by (simp add: ceiling_divide_eq_div)

lemma enumerate_take_map_upt:
  "enumerate 0 (take M (map f [0..<N])) = map (\<lambda>k. (k, f k)) [0..<min M N]"
proof -
  have "take M (map f [0..<N]) = map f [0..<min M N]"
    by (simp add: take_map min_def)
  then show ?thesis
    by (simp add: enumerate_eq_zip zip_map2 zip_same_conv_map)
qed

lemma extract_frames_saved:
  assumes "gif_path \<in> existing w" and "decoder w gif_path = Some img"
    and "n_frames img = Some t" and "2 \<le> t"
    and "resolve_skip t m skip = Inr s" and "1 \<le> s"
  shows "fst (extract_frames gif_path m skip od w)
           = Inr (resolve_output_dir gif_path od,
                  if 0 \<le> m then min m \<lceil>real_of_int t / real_of_int s\<rceil> else 0)"
    and "files (snd (extract_frames gif_path m skip od w))
           = files w @ map (\<lambda>k. (path_join (resolve_output_dir gif_path od)
                                      (frame_name (int k) (int k * s) (frame_duration img (int k * s))),
                                    rgba (frame_at img (int k * s))))
                         [0..<min (nat m) (nat \<lceil>real_of_int t / real_of_int s\<rceil>)]"
proof -
  have t: "(case n_frames img of None \<Rightarrow> 1 | Some n \<Rightarrow> n) = t" "t \<noteq> 1" "s \<noteq> 0"
    using assms by simp_all
  have "0 \<le> real_of_int t / real_of_int s"
    using assms by simp
  then have pos: "0 \<le> \<lceil>real_of_int t / real_of_int s\<rceil>"
    by (simp only: zero_le_ceiling)
  note run = extract_frames_loop [OF assms(1,2) t(1,2) assms(5) t(3), of od]
  show "fst (extract_frames gif_path m skip od w)
           = Inr (resolve_output_dir gif_path od,
                  if 0 \<le> m then min m \<lceil>real_of_int t / real_of_int s\<rceil> else 0)"
    using pos by (simp add: run(1) range_from_stride [OF assms(6)] min.commute)
  show "files (snd (extract_frames gif_path m skip od w))
           = files w @ map (\<lambda>k. (path_join (resolve_output_dir gif_path od)
                                      (frame_name (int k) (int k * s) (frame_duration img (int k * s))),
                                    rgba (frame_at img (int k * s))))
                         [0..<min (nat m) (nat \<lceil>real_of_int t / real_of_int s\<rceil>)]"
    by (simp add: run(2) range_from_stride [OF assms(6)] enumerate_take_map_upt)
qed

lemma frame_names_distinct:
  "distinct (map (\<lambda>k. path_join d (frame_name (int k) (f k) (g k))) [0..<n])"
  by (auto simp: distinct_map inj_on_def dest: frame_name_inj)

lemma int_min_nat: "0 \<le> a \<Longrightarrow> 0 \<le> b \<Longrightarrow> int (min (nat a) (nat b)) = min a b"
  by simp

section \<open>The number of frames extracted\<close>

text \<open>
  Claim C1. Let the container exist and open with at least two frames, let
  \<open>max_frames\<close> be at least 1 and let the stride in force (given, or computed by lines 28
  and 29) be at least 1. Then \<open>extract_frames\<close> returns the output directory together
  with the count \<open>min max_frames \<lceil>total_frames / stride\<rceil>\<close>, the run appends exactly
  that many entries to the journal of saved files, and their paths are pairwise distinct,
  so that many frame files are written.
\<close>

theorem extract_frames_count:
  assumes "gif_path \<in> existing w" and "decoder w gif_path = Some img"
    and "n_frames img = Some total_frames" and "2 \<le> total_frames" and "1 \<le> max_frames"
    and "resolve_skip total_frames max_frames skip = Inr stride" and "1 \<le> stride"
  shows "fst (extract_frames gif_path max_frames skip output_dir w)
           = Inr (resolve_output_dir gif_path output_dir,
                  min max_frames \<lceil>real_of_int total_frames / real_of_int stride\<rceil>)
         \<and> files (snd (extract_frames gif_path max_frames skip output_dir w))
             = files w @ saved w (snd (extract_frames gif_path max_frames skip output_dir w))
         \<and> int (length (saved w (snd (extract_frames gif_path max_frames skip output_dir w))))
             = min max_frames \<lceil>real_of_int total_frames / real_of_int stride\<rceil>
         \<and> distinct (map fst (saved w (snd (extract_frames gif_path max_frames skip output_dir w))))"
proof -
  note run = extract_frames_saved [OF assms(1,2,3,4,6,7), of output_dir]
  have "0 \<le> real_of_int total_frames / real_of_int stride"
    using assms by simp
  then have pos: "0 \<le> \<lceil>real_of_int total_frames / real_of_int stride\<rceil>"
    by (simp only: zero_le_ceiling)
  have ret: "fst (extract_frames gif_path max_frames skip output_dir w)
           = Inr (resolve_output_dir gif_path output_dir,
                  min max_frames \<lceil>real_of_int total_frames / real_of_int stride\<rceil>)"
    using assms(5) by (simp add: run(1))
  have app: "files (snd (extract_frames gif_path max_frames skip output_dir w))
             = files w @ saved w (snd (extract_frames gif_path max_frames skip output_dir w))"
    by (simp add: saved_def run(2))
  have len: "int (length (saved w (snd (extract_frames gif_path max_frames skip output_dir w))))
             = min max_frames \<lceil>real_of_int total_frames / real_of_int stride\<rceil>"
  proof -
    have "length (saved w (snd (extract_frames gif_path max_frames skip output_dir w)))
            = min (nat max_frames) (nat \<lceil>real_of_int total_frames / real_of_int stride\<rceil>)"
      by (simp add: saved_def run(2))
    moreover have "0 \<le> max_frames" using assms(5) by simp
    ultimately show ?thesis using pos by (simp only: int_min_nat)
  qed
  have dis: "distinct (map fst (saved w (snd (extract_frames gif_path max_frames skip output_dir w))))"
    by (simp add: saved_def run(2) comp_def frame_names_distinct)
  from ret app len dis show ?thesis by simp
qed

text \<open>
  Scenario E of the specification: twelve frames and \<^verbatim>\<open>--skip 5\<close> give three files.
\<close>

theorem extract_frames_count_witness:
  "''clip.gif'' \<in> existing (disk ''clip.gif'' (animation 12))
   \<and> decoder (disk ''clip.gif'' (animation 12)) ''clip.gif'' = Some (animation 12)
   \<and> n_frames (animation 12) = Some 12 \<and> (2::int) \<le> 12 \<and> (1::int) \<le> 30
   \<and> resolve_skip 12 30 (Some 5) = Inr 5 \<and> (1::int) \<le> 5
   \<and> fst (extract_frames ''clip.gif'' 30 (Some 5) (Some ''out'') (disk ''clip.gif'' (animation 12)))
       = Inr (''out'', 3)
   \<and> length (saved (disk ''clip.gif'' (animation 12))
         (snd (extract_frames ''clip.gif'' 30 (Some 5) (Some ''out'') (disk ''clip.gif'' (animation 12)))))
       = 3"
  using extract_frames_count [of "''clip.gif''" "disk ''clip.gif'' (animation 12)" "animation 12"
      12 30 "Some 5" 5 "Some ''out''"]
  by (simp add: disk_def animation_def resolve_skip_def resolve_output_dir_def)

section \<open>The stride\<close>

text \<open>
  Claim C2. For a container with at least two frames and \<open>max_frames\<close> at least 1, an
  omitted stride is computed as \<open>max 1 \<lfloor>total_frames / max_frames\<rfloor>\<close>, a given stride is
  taken as it is, and a run with the stride omitted is the run with the computed stride
  given.
\<close>

theorem stride_resolution:
  assumes "gif_path \<in> existing w" and "decoder w gif_path = Some img"
    and "n_frames img = Some total_frames" and "2 \<le> total_frames" and "1 \<le> max_frames"
  shows "resolve_skip total_frames max_frames None
           = Inr (max 1 \<lfloor>real_of_int total_frames / real_of_int max_frames\<rfloor>)
         \<and> resolve_skip total_frames max_frames (Some stride) = Inr stride
         \<and> extract_frames gif_path max_frames None output_dir w
             = extract_frames gif_path max_frames
                 (Some (max 1 \<lfloor>real_of_int total_frames / real_of_int max_frames\<rfloor>)) output_dir w"
proof -
  have fl: "\<lfloor>real_of_int total_frames / real_of_int max_frames\<rfloor> = total_frames div max_frames"
    by (simp add: floor_divide_of_int_eq)
  have auto_stride: "resolve_skip total_frames max_frames None
           = Inr (max 1 (total_frames div max_frames))"
    using assms(5) by (simp add: resolve_skip_def floordiv_def)
  have given: "resolve_skip total_frames max_frames (Some stride) = Inr stride"
    by (simp add: resolve_skip_def)
  have same: "resolve_skip total_frames max_frames None
                = resolve_skip total_frames max_frames (Some (max 1 (total_frames div max_frames)))"
    by (simp only: auto_stride) (simp add: resolve_skip_def)
  have "extract_frames gif_path max_frames None output_dir w
             = extract_frames gif_path max_frames
                 (Some (max 1 (total_frames div max_frames))) output_dir w"
    using assms(1,2,3) by (simp add: extract_frames_def same)
  with auto_stride given show ?thesis by (simp only: fl)
qed

text \<open>
  Scenario A of the specification: a hundred frames and the default of thirty give the
  stride 3.
\<close>

theorem stride_resolution_witness:
  "''clip.gif'' \<in> existing (disk ''clip.gif'' (animation 100))
   \<and> decoder (disk ''clip.gif'' (animation 100)) ''clip.gif'' = Some (animation 100)
   \<and> n_frames (animation 100) = Some 100 \<and> (2::int) \<le> 100 \<and> (1::int) \<le> 30
   \<and> resolve_skip 100 30 None = Inr 3
   \<and> resolve_skip 100 30 (Some 7) = Inr 7
   \<and> extract_frames ''clip.gif'' 30 None None (disk ''clip.gif'' (animation 100))
       = extract_frames ''clip.gif'' 30 (Some 3) None (disk ''clip.gif'' (animation 100))"
  using stride_resolution [where gif_path = "''clip.gif''"
      and w = "disk ''clip.gif'' (animation 100)" and img = "animation 100"
      and total_frames = 100 and max_frames = 30 and stride = 7 and output_dir = None]
  by (simp add: disk_def animation_def)

section \<open>The ceiling on the counter\<close>

text \<open>
  Claim C3. For a container with at least two frames, \<open>max_frames\<close> at least 1 and a
  stride in force of at least 1, the counter \<open>extracted\<close> is at most \<open>max_frames\<close> in
  every state in which the head of the loop is reached and in the state the loop ends in
  (the last of these states is the result of the loop). Reached with the counter equal to
  \<open>max_frames\<close> and a candidate left, the loop stops there and leaves the world as it
  is: nothing is sought, decoded or saved for that candidate. The count that
  \<open>extract_frames\<close> returns is at most \<open>max_frames\<close>.
\<close>

theorem extracted_never_exceeds_max_frames:
  assumes "gif_path \<in> existing w" and "decoder w gif_path = Some img"
    and "n_frames img = Some total_frames" and "2 \<le> total_frames" and "1 \<le> max_frames"
    and "resolve_skip total_frames max_frames skip = Inr stride" and "1 \<le> stride"
  shows "(\<forall>st \<in> set (loop_states img d max_frames (range_from 0 total_frames stride) (w', 0)).
            snd st \<le> max_frames)
         \<and> last (loop_states img d max_frames (range_from 0 total_frames stride) (w', 0))
             = frame_loop img d max_frames (range_from 0 total_frames stride) (w', 0)
         \<and> loop_states img d max_frames (i # rest) (w', max_frames) = [(w', max_frames)]
         \<and> frame_loop img d max_frames (i # rest) (w', max_frames) = (w', max_frames)
         \<and> (\<exists>n. fst (extract_frames gif_path max_frames skip output_dir w)
                   = Inr (resolve_output_dir gif_path output_dir, n) \<and> n \<le> max_frames)"
proof -
  have start: "(0::int) \<le> max_frames" using assms(5) by simp
  have inv: "\<forall>st \<in> set (loop_states img d max_frames (range_from 0 total_frames stride) (w', 0)).
            snd st \<le> max_frames"
    using loop_states_bounded [OF start] by blast
  have ret: "fst (extract_frames gif_path max_frames skip output_dir w)
           = Inr (resolve_output_dir gif_path output_dir,
                  min max_frames \<lceil>real_of_int total_frames / real_of_int stride\<rceil>)"
    using extract_frames_saved(1) [OF assms(1,2,3,4,6,7), of output_dir] start by simp
  have "\<exists>n. fst (extract_frames gif_path max_frames skip output_dir w)
                   = Inr (resolve_output_dir gif_path output_dir, n) \<and> n \<le> max_frames"
    by (rule exI [of _ "min max_frames \<lceil>real_of_int total_frames / real_of_int stride\<rceil>"])
       (simp add: ret)
  with inv show ?thesis by (simp add: loop_states_last)
qed

text \<open>
  Scenario A again: at the candidate 90 the counter has reached thirty and the loop
  stops.
\<close>

theorem extracted_never_exceeds_max_frames_witness:
  "''clip.gif'' \<in> existing (disk ''clip.gif'' (animation 100))
   \<and> decoder (disk ''clip.gif'' (animation 100)) ''clip.gif'' = Some (animation 100)
   \<and> n_frames (animation 100) = Some 100 \<and> (2::int) \<le> 100 \<and> (1::int) \<le> 30
   \<and> resolve_skip 100 30 None = Inr 3 \<and> (1::int) \<le> 3
   \<and> list_all (\<lambda>st. snd st \<le> 30)
         (loop_states (animation 100) ''out'' 30 (range_from 0 100 3)
            (disk ''clip.gif'' (animation 100), 0))
   \<and> frame_loop (animation 100) ''out'' 30 [90, 93, 96, 99] (disk ''clip.gif'' (animation 100), 30)
       = (disk ''clip.gif'' (animation 100), 30)
   \<and> (\<exists>n. fst (extract_frames ''clip.gif'' 30 None (Some ''out'') (disk ''clip.gif'' (animation 100)))
             = Inr (''out'', n) \<and> n \<le> 30)"
  using extracted_never_exceeds_max_frames [where gif_path = "''clip.gif''"
      and w = "disk ''clip.gif'' (animation 100)" and img = "animation 100"
      and total_frames = 100 and max_frames = 30 and skip = None and stride = 3
      and d = "''out''" and w' = "disk ''clip.gif'' (animation 100)"
      and i = 90 and rest = "[93, 96, 99]" and output_dir = "Some ''out''"]
  by (simp add: disk_def animation_def resolve_skip_def floordiv_def resolve_output_dir_def
        list_all_iff)

lemma min_nat_nat: "0 \<le> a \<Longrightarrow> 0 \<le> b \<Longrightarrow> min (nat a) (nat b) = nat (min a b)"
  by (simp add: min_def)

section \<open>The files written\<close>

text \<open>
  Claim C4. For a container with at least two frames, \<open>max_frames\<close> at least 1 and a
  stride in force of at least 1, the files saved by the run are, in the order of saving
  and for \<open>k\<close> from 0 up to the count extracted: in the output directory, the file named
  \<^verbatim>\<open>frame_\<close>, then \<open>k\<close> in decimal padded with zeros to at least three digits, then
  \<^verbatim>\<open>_f\<close> and the source index \<open>k * stride\<close>, then \<^verbatim>\<open>_d\<close> and the duration of that
  frame in milliseconds (0 if the decoder reports none), then \<^verbatim>\<open>ms.png\<close>; its content
  is the RGBA conversion of the frame at the source index \<open>k * stride\<close>.
\<close>

theorem extracted_file_names:
  assumes "gif_path \<in> existing w" and "decoder w gif_path = Some img"
    and "n_frames img = Some total_frames" and "2 \<le> total_frames" and "1 \<le> max_frames"
    and "resolve_skip total_frames max_frames skip = Inr stride" and "1 \<le> stride"
  shows "saved w (snd (extract_frames gif_path max_frames skip output_dir w))
           = map (\<lambda>k. (path_join (resolve_output_dir gif_path output_dir)
                          (''frame_'' @ replicate (3 - length (str_nat k)) CHR ''0'' @ str_nat k
                           @ ''_f'' @ str_int (int k * stride)
                           @ ''_d'' @ str_int (case duration (frame_at img (int k * stride)) of
                                                 None \<Rightarrow> 0 | Some ms \<Rightarrow> ms)
                           @ ''ms.png''),
                        rgba (frame_at img (int k * stride))))
               [0..<nat (min max_frames \<lceil>real_of_int total_frames / real_of_int stride\<rceil>)]"
proof -
  have "0 \<le> real_of_int total_frames / real_of_int stride"
    using assms by simp
  then have pos: "0 \<le> \<lceil>real_of_int total_frames / real_of_int stride\<rceil>"
    by (simp only: zero_le_ceiling)
  have "0 \<le> max_frames" using assms(5) by simp
  then have n: "min (nat max_frames) (nat \<lceil>real_of_int total_frames / real_of_int stride\<rceil>)
                  = nat (min max_frames \<lceil>real_of_int total_frames / real_of_int stride\<rceil>)"
    using pos by (rule min_nat_nat)
  have name: "frame_name (int k) i ms
                = ''frame_'' @ replicate (3 - length (str_nat k)) CHR ''0'' @ str_nat k
                  @ ''_f'' @ str_int i @ ''_d'' @ str_int ms @ ''ms.png''" for k i ms
    by (simp add: frame_name_def fmt_03d_nat zfill_def)
  show ?thesis
    by (simp add: saved_def extract_frames_saved(2) [OF assms(1,2,3,4,6,7)] n name
          frame_duration_def)
qed

text \<open>
  Scenario E of the specification: the source indices 0, 5 and 10; the frame at index 5
  has no duration.
\<close>

theorem extracted_file_names_witness:
  "''clip.gif'' \<in> existing (disk ''clip.gif'' (animation 12))
   \<and> decoder (disk ''clip.gif'' (animation 12)) ''clip.gif'' = Some (animation 12)
   \<and> n_frames (animation 12) = Some 12 \<and> (2::int) \<le> 12 \<and> (1::int) \<le> 30
   \<and> resolve_skip 12 30 (Some 5) = Inr 5 \<and> (1::int) \<le> 5
   \<and> saved (disk ''clip.gif'' (animation 12))
         (snd (extract_frames ''clip.gif'' 30 (Some 5) (Some ''out'') (disk ''clip.gif'' (animation 12))))
       = [(''out/frame_000_f0_d40ms.png'', [0]),
          (''out/frame_001_f5_d0ms.png'', [5]),
          (''out/frame_002_f10_d40ms.png'', [10])]"
proof -
  let ?w = "disk ''clip.gif'' (animation 12)"
  have h: "''clip.gif'' \<in> existing ?w" "decoder ?w ''clip.gif'' = Some (animation 12)"
    "n_frames (animation 12) = Some 12" "(2::int) \<le> 12" "(1::int) \<le> 30"
    "resolve_skip 12 30 (Some 5) = Inr 5" "(1::int) \<le> 5"
    by (simp_all add: disk_def animation_def resolve_skip_def)
  have n: "[0..<nat (min 30 \<lceil>real_of_int 12 / real_of_int 5\<rceil>)] = [0, 1, 2]"
    by (simp add: upt_conv_Cons)
  have s: "str_nat 0 = ''0''" "str_nat (Suc 0) = ''1''" "str_nat 2 = ''2''"
    "str_int 0 = ''0''" "str_int 5 = ''5''" "str_int 10 = ''10''"
    by (simp_all add: str_int_def str_nat.simps)
  have s40: "str_int 40 = ''40''"
    by (simp add: str_int_def str_nat.simps)
  have z: "replicate 2 CHR ''0'' = ''00''"
    by (simp add: numeral_2_eq_2)
  have "saved ?w (snd (extract_frames ''clip.gif'' 30 (Some 5) (Some ''out'') ?w))
       = [(''out/frame_000_f0_d40ms.png'', [0]),
          (''out/frame_001_f5_d0ms.png'', [5]),
          (''out/frame_002_f10_d40ms.png'', [10])]"
    unfolding extracted_file_names [OF h, of "Some ''out''"] n
    by (simp add: s s40 z animation_def resolve_output_dir_def path_join_def)
  with h show ?thesis by simp
qed

section \<open>Rejected inputs\<close>

text \<open>
  Claim C5. For an existing container that opens with a total frame count of 1 (the
  attribute \<^verbatim>\<open>n_frames\<close> is 1 or absent), \<open>extract_frames\<close> prints
  \<^verbatim>\<open>Error: Not an animated GIF (only 1 frame)\<close> (the specification's NotAnimatedError)
  and leaves through \<^verbatim>\<open>sys.exit(1)\<close>, so the process ends with status 1; no file is
  saved, no directory is created and no path comes into existence.
\<close>

theorem single_frame_rejected:
  assumes "gif_path \<in> existing w" and "decoder w gif_path = Some img"
    and "(case n_frames img of None \<Rightarrow> 1 | Some n \<Rightarrow> n) = 1"
  shows "extract_frames gif_path max_frames skip output_dir w
           = (Inl (SystemExit 1), py_print w ''Error: Not an animated GIF (only 1 frame)'')
         \<and> exit_status (fst (extract_frames gif_path max_frames skip output_dir w)) = 1
         \<and> files (snd (extract_frames gif_path max_frames skip output_dir w)) = files w
         \<and> dirs (snd (extract_frames gif_path max_frames skip output_dir w)) = dirs w
         \<and> existing (snd (extract_frames gif_path max_frames skip output_dir w)) = existing w"
  by (simp add: extract_frames_single [OF assms] exit_status_def py_print_def)

text \<open>Scenario C of the specification.\<close>

theorem single_frame_rejected_witness:
  "''still.gif'' \<in> existing (disk ''still.gif'' (animation 1))
   \<and> decoder (disk ''still.gif'' (animation 1)) ''still.gif'' = Some (animation 1)
   \<and> (case n_frames (animation 1) of None \<Rightarrow> 1 | Some n \<Rightarrow> n) = 1
   \<and> fst (extract_frames ''still.gif'' 30 None None (disk ''still.gif'' (animation 1)))
       = Inl (SystemExit 1)
   \<and> stdout (snd (extract_frames ''still.gif'' 30 None None (disk ''still.gif'' (animation 1))))
       = [''Error: Not an animated GIF (only 1 frame)'']
   \<and> files (snd (extract_frames ''still.gif'' 30 None None (disk ''still.gif'' (animation 1)))) = []
   \<and> dirs (snd (extract_frames ''still.gif'' 30 None None (disk ''still.gif'' (animation 1)))) = {}"
  using single_frame_rejected [where gif_path = "''still.gif''"
      and w = "disk ''still.gif'' (animation 1)" and img = "animation 1"
      and max_frames = 30 and skip = None and output_dir = None]
  by (simp add: disk_def animation_def py_print_def)

text \<open>
  Claim C6. For a path that does not exist, \<open>extract_frames\<close> prints
  \<^verbatim>\<open>Error: File not found:\<close> and the path (the specification's NotFoundError) and
  leaves through \<^verbatim>\<open>sys.exit(1)\<close>: the process ends with status 1 by an exit of the
  script's own and not by an uncaught exception; no directory is created and no file is
  saved.
\<close>

theorem missing_container_rejected:
  assumes "gif_path \<notin> existing w"
  shows "extract_frames gif_path max_frames skip output_dir w
           = (Inl (SystemExit 1), py_print w (''Error: File not found: '' @ gif_path))
         \<and> exit_status (fst (extract_frames gif_path max_frames skip output_dir w)) = 1
         \<and> files (snd (extract_frames gif_path max_frames skip output_dir w)) = files w
         \<and> dirs (snd (extract_frames gif_path max_frames skip output_dir w)) = dirs w
         \<and> existing (snd (extract_frames gif_path max_frames skip output_dir w)) = existing w"
  by (simp add: extract_frames_not_found [OF assms] exit_status_def py_print_def)

text \<open>Scenario D of the specification.\<close>

theorem missing_container_rejected_witness:
  "''gone.gif'' \<notin> existing (disk ''clip.gif'' (animation 12))
   \<and> fst (extract_frames ''gone.gif'' 30 None None (disk ''clip.gif'' (animation 12)))
       = Inl (SystemExit 1)
   \<and> stdout (snd (extract_frames ''gone.gif'' 30 None None (disk ''clip.gif'' (animation 12))))
       = [''Error: File not found: gone.gif'']
   \<and> dirs (snd (extract_frames ''gone.gif'' 30 None None (disk ''clip.gif'' (animation 12)))) = {}"
  using missing_container_rejected [where gif_path = "''gone.gif''"
      and w = "disk ''clip.gif'' (animation 12)"
      and max_frames = 30 and skip = None and output_dir = None]
  by (simp add: disk_def py_print_def)

section \<open>Strides and limits outside the documented range\<close>

text \<open>
  Claim C9. For an existing container with at least two frames and a given negative
  stride, \<^verbatim>\<open>range\<close> yields no candidate, so the loop is left at once in the state it
  was entered in; the output directory is created, no file is saved, and
  \<open>extract_frames\<close> returns the output directory with the count 0: the process ends
  with status 0.
\<close>

theorem negative_stride_extracts_nothing:
  assumes "gif_path \<in> existing w" and "decoder w gif_path = Some img"
    and "n_frames img = Some total_frames" and "2 \<le> total_frames" and "stride < 0"
  shows "py_range 0 total_frames stride = Inr []
         \<and> loop_states img d max_frames [] st = [st]
         \<and> fst (extract_frames gif_path max_frames (Some stride) output_dir w)
             = Inr (resolve_output_dir gif_path output_dir, 0)
         \<and> exit_status (fst (extract_frames gif_path max_frames (Some stride) output_dir w)) = 0
         \<and> files (snd (extract_frames gif_path max_frames (Some stride) output_dir w)) = files w
         \<and> dirs (snd (extract_frames gif_path max_frames (Some stride) output_dir w))
             = insert (resolve_output_dir gif_path output_dir) (dirs w)"
proof -
  have r: "range_from 0 total_frames stride = []"
    using assms(4,5) by (simp add: range_from_neg)
  have t: "(case n_frames img of None \<Rightarrow> 1 | Some n \<Rightarrow> n) = total_frames"
    "total_frames \<noteq> 1" "stride \<noteq> 0"
    using assms by simp_all
  have sk: "resolve_skip total_frames max_frames (Some stride) = Inr stride"
    by (simp add: resolve_skip_def)
  note run = extract_frames_loop [OF assms(1,2) t(1,2) sk t(3), of output_dir]
  have ret: "fst (extract_frames gif_path max_frames (Some stride) output_dir w)
             = Inr (resolve_output_dir gif_path output_dir, 0)"
    by (simp add: run(1) r)
  have fs: "files (snd (extract_frames gif_path max_frames (Some stride) output_dir w)) = files w"
    by (simp add: run(2) r)
  have "py_range 0 total_frames stride = Inr []"
    using assms(5) by (simp add: py_range_def r)
  then show ?thesis
    by (simp add: ret fs run(3) exit_status_def)
qed

text \<open>Twelve frames and \<^verbatim>\<open>--skip -2\<close>.\<close>

theorem negative_stride_extracts_nothing_witness:
  "''clip.gif'' \<in> existing (disk ''clip.gif'' (animation 12))
   \<and> decoder (disk ''clip.gif'' (animation 12)) ''clip.gif'' = Some (animation 12)
   \<and> n_frames (animation 12) = Some 12 \<and> (2::int) \<le> 12 \<and> (- 2::int) < 0
   \<and> fst (extract_frames ''clip.gif'' 30 (Some (- 2)) (Some ''out'') (disk ''clip.gif'' (animation 12)))
       = Inr (''out'', 0)
   \<and> files (snd (extract_frames ''clip.gif'' 30 (Some (- 2)) (Some ''out'')
                    (disk ''clip.gif'' (animation 12)))) = []
   \<and> dirs (snd (extract_frames ''clip.gif'' 30 (Some (- 2)) (Some ''out'')
                    (disk ''clip.gif'' (animation 12)))) = {''out''}"
  using negative_stride_extracts_nothing [where gif_path = "''clip.gif''"
      and w = "disk ''clip.gif'' (animation 12)" and img = "animation 12"
      and total_frames = 12 and stride = "- 2" and max_frames = 30 and output_dir = "Some ''out''"]
  by (simp add: disk_def animation_def resolve_output_dir_def)

text \<open>
  Claim C10. For an existing container with at least two frames, \<open>max_frames = 0\<close> and
  the stride omitted, the existence check and the single-frame check pass and the
  division of line 29 raises \<^verbatim>\<open>ZeroDivisionError\<close>, which nothing catches: the world is
  as before (nothing printed, no directory), the result is no \<^verbatim>\<open>sys.exit\<close> of the
  script, and the process ends with status 1.
\<close>

theorem zero_max_frames_crashes:
  assumes "gif_path \<in> existing w" and "decoder w gif_path = Some img"
    and "n_frames img = Some total_frames" and "2 \<le> total_frames"
  shows "floordiv total_frames 0 = Inl ZeroDivisionError
         \<and> extract_frames gif_path 0 None output_dir w = (Inl ZeroDivisionError, w)
         \<and> exit_status (fst (extract_frames gif_path 0 None output_dir w)) = 1
         \<and> fst (extract_frames gif_path 0 None output_dir w) \<noteq> Inl (SystemExit code)"
proof -
  have t: "(case n_frames img of None \<Rightarrow> 1 | Some n \<Rightarrow> n) = total_frames"
    "total_frames \<noteq> 1"
    using assms by simp_all
  have sk: "resolve_skip total_frames 0 None = Inl ZeroDivisionError"
    by (simp add: resolve_skip_def floordiv_def)
  show ?thesis
    by (simp add: extract_frames_skip_error [OF assms(1,2) t sk] exit_status_def floordiv_def)
qed

text \<open>Twelve frames and \<^verbatim>\<open>--max-frames 0\<close>.\<close>

theorem zero_max_frames_crashes_witness:
  "''clip.gif'' \<in> existing (disk ''clip.gif'' (animation 12))
   \<and> decoder (disk ''clip.gif'' (animation 12)) ''clip.gif'' = Some (animation 12)
   \<and> n_frames (animation 12) = Some 12 \<and> (2::int) \<le> 12
   \<and> extract_frames ''clip.gif'' 0 None None (disk ''clip.gif'' (animation 12))
       = (Inl ZeroDivisionError, disk ''clip.gif'' (animation 12))"
  using zero_max_frames_crashes [where gif_path = "''clip.gif''"
      and w = "disk ''clip.gif'' (animation 12)" and img = "animation 12"
      and total_frames = 12 and output_dir = None]
  by (simp add: disk_def animation_def)

section \<open>Running twice\<close>

lemma map_of_saved_twice:
  "map_of (rev ((fs @ xs) @ xs)) = map_of (rev (fs @ xs))"
proof
  fix p
  show "map_of (rev ((fs @ xs) @ xs)) p = map_of (rev (fs @ xs)) p"
    by (simp add: map_add_def split: option.split)
qed

lemma frame_loop_existing:
  "p \<in> existing (fst s) \<Longrightarrow> p \<in> existing (fst (frame_loop img d m cs s))"
proof (induction cs arbitrary: s)
  case Nil
  then show ?case by simp
next
  case (Cons i cs)
  obtain w e where s: "s = (w, e)" by (cases s)
  have "p \<in> existing (fst (loop_body img d i (w, e)))"
    using Cons.prems by (simp add: s loop_body_def save_def Let_def)
  then have "p \<in> existing (fst (frame_loop img d m cs (loop_body img d i (w, e))))"
    by (rule Cons.IH)
  then show ?case
    using Cons.prems by (simp add: s)
qed

lemma extract_frames_keeps_input:
  assumes "gif_path \<in> existing w" and "decoder w gif_path = Some img"
    and "(case n_frames img of None \<Rightarrow> 1 | Some n \<Rightarrow> n) = t" and "t \<noteq> 1"
    and "resolve_skip t m skip = Inr s" and "s \<noteq> 0"
  shows "gif_path \<in> existing (snd (extract_frames gif_path m skip od w))"
proof -
  define d where "d = resolve_output_dir gif_path od"
  define w6 where "w6 = py_print (py_print (py_print (py_print (py_print (makedirs w d)
      (''GIF: '' @ gif_path)) (''Total frames: '' @ str_int t))
      (''Skip: every '' @ str_int s @ '' frame(s)'')) (''Output: '' @ d)) ''---''"
  define r where "r = frame_loop img d m (range_from 0 t s) (w6, 0)"
  have run: "extract_frames gif_path m skip od w
               = (Inr (d, snd r),
                  py_print (fst r) (''Extracted '' @ str_int (snd r) @ '' frames to '' @ d))"
    using assms
    by (simp add: extract_frames_def Let_def py_range_def d_def w6_def r_def split: prod.split)
  have "gif_path \<in> existing (fst (w6, 0::int))"
    using assms(1) by (simp add: w6_def py_print_def makedirs_def)
  then have "gif_path \<in> existing (fst r)"
    unfolding r_def by (rule frame_loop_existing)
  then show ?thesis by (simp add: run py_print_def)
qed

lemma py_print_keeps:
  "files (py_print w l) = files w"
  "dirs (py_print w l) = dirs w"
  "existing (py_print w l) = existing w"
  "decoder (py_print w l) = decoder w"
  by (simp_all add: py_print_def)

lemma extract_frames_rerun:
  "fst (extract_frames gif_path m skip od (snd (extract_frames gif_path m skip od w)))
     = fst (extract_frames gif_path m skip od w)
   \<and> saved (snd (extract_frames gif_path m skip od w))
         (snd (extract_frames gif_path m skip od (snd (extract_frames gif_path m skip od w))))
       = saved w (snd (extract_frames gif_path m skip od w))
   \<and> file_at (snd (extract_frames gif_path m skip od (snd (extract_frames gif_path m skip od w))))
       = file_at (snd (extract_frames gif_path m skip od w))
   \<and> dirs (snd (extract_frames gif_path m skip od (snd (extract_frames gif_path m skip od w))))
       = dirs (snd (extract_frames gif_path m skip od w))
   \<and> (case fst (extract_frames gif_path m skip od w) of
         Inl e \<Rightarrow> True
       | Inr (d, n) \<Rightarrow> d \<in> dirs (snd (extract_frames gif_path m skip od w)))"
proof -
  let ?R = "extract_frames gif_path m skip od"
  let ?t = "\<lambda>img. case n_frames img of None \<Rightarrow> 1 | Some n \<Rightarrow> (n::int)"
  consider
      (missing) "gif_path \<notin> existing w"
    | (unreadable) "gif_path \<in> existing w" "decoder w gif_path = None"
    | (single) img where "gif_path \<in> existing w" "decoder w gif_path = Some img"
        "(case n_frames img of None \<Rightarrow> 1 | Some n \<Rightarrow> n) = 1"
    | (no_stride) img e where "gif_path \<in> existing w" "decoder w gif_path = Some img"
        "(case n_frames img of None \<Rightarrow> 1 | Some n \<Rightarrow> n) \<noteq> 1"
        "resolve_skip (case n_frames img of None \<Rightarrow> 1 | Some n \<Rightarrow> n) m skip = Inl e"
    | (zero) img where "gif_path \<in> existing w" "decoder w gif_path = Some img"
        "(case n_frames img of None \<Rightarrow> 1 | Some n \<Rightarrow> n) \<noteq> 1"
        "resolve_skip (case n_frames img of None \<Rightarrow> 1 | Some n \<Rightarrow> n) m skip = Inr 0"
    | (loop) img s where "gif_path \<in> existing w" "decoder w gif_path = Some img"
        "(case n_frames img of None \<Rightarrow> 1 | Some n \<Rightarrow> n) \<noteq> 1"
        "resolve_skip (case n_frames img of None \<Rightarrow> 1 | Some n \<Rightarrow> n) m skip = Inr s" "s \<noteq> 0"
  proof (cases "gif_path \<in> existing w")
    case False
    then show ?thesis by (rule missing)
  next
    case ex: True
    show ?thesis
    proof (cases "decoder w gif_path")
      case None
      with ex show ?thesis by (rule unreadable)
    next
      case (Some img)
      show ?thesis
      proof (cases "?t img = 1")
        case True
        with ex Some show ?thesis by (rule single)
      next
        case many: False
        show ?thesis
        proof (cases "resolve_skip (?t img) m skip")
          case (Inl e)
          with ex Some many show ?thesis by (rule no_stride)
        next
          case (Inr s)
          show ?thesis
          proof (cases "s = 0")
            case True
            with ex Some many Inr show ?thesis by (simp add: zero)
          next
            case False
            with ex Some many Inr show ?thesis by (rule loop)
          qed
        qed
      qed
    qed
  qed
  then show ?thesis
  proof cases
    case missing
    define w1 where "w1 = py_print w (''Error: File not found: '' @ gif_path)"
    have 1: "?R w = (Inl (SystemExit 1), w1)"
      unfolding w1_def using missing by (rule extract_frames_not_found)
    have "gif_path \<notin> existing w1"
      using missing by (simp add: w1_def py_print_keeps)
    then have 2: "?R w1 = (Inl (SystemExit 1), py_print w1 (''Error: File not found: '' @ gif_path))"
      by (rule extract_frames_not_found)
    have 3: "files w1 = files w"
      by (simp add: w1_def py_print_keeps)
    show ?thesis
      unfolding 1 fst_conv snd_conv 2
      by (simp add: saved_def file_at_def py_print_keeps 3)
  next
    case unreadable
    then have 1: "?R w = (Inl OpenError, w)"
      by (rule extract_frames_open_error)
    show ?thesis by (simp add: 1 saved_def)
  next
    case single
    define w1 where "w1 = py_print w ''Error: Not an animated GIF (only 1 frame)''"
    have 1: "?R w = (Inl (SystemExit 1), w1)"
      unfolding w1_def using single by (rule extract_frames_single)
    have "gif_path \<in> existing w1" "decoder w1 gif_path = Some img"
      using single by (simp_all add: w1_def py_print_keeps)
    then have 2: "?R w1 = (Inl (SystemExit 1),
        py_print w1 ''Error: Not an animated GIF (only 1 frame)'')"
      using single(3) by (rule extract_frames_single)
    have 3: "files w1 = files w"
      by (simp add: w1_def py_print_keeps)
    show ?thesis
      unfolding 1 fst_conv snd_conv 2
      by (simp add: saved_def file_at_def py_print_keeps 3)
  next
    case no_stride
    have 1: "?R w = (Inl e, w)"
      using no_stride(1,2) refl no_stride(3,4) by (rule extract_frames_skip_error)
    show ?thesis by (simp add: 1 saved_def)
  next
    case zero
    note a = extract_frames_zero_step [OF zero(1,2) refl zero(3,4), of od]
    have "gif_path \<in> existing (snd (?R w))" "decoder (snd (?R w)) gif_path = Some img"
      using zero(1,2) by (simp_all add: a)
    note b = extract_frames_zero_step [OF this refl zero(3,4), of od]
    show ?thesis
      by (simp add: a b saved_def file_at_def)
  next
    case loop
    note a = extract_frames_loop [OF loop(1,2) refl loop(3,4,5), of od]
    have "gif_path \<in> existing (snd (?R w))"
      using loop(1,2) refl loop(3,4,5) by (rule extract_frames_keeps_input)
    moreover have "decoder (snd (?R w)) gif_path = Some img"
      using loop(2) by (simp add: a)
    ultimately have b: "fst (?R (snd (?R w))) = fst (?R w)"
         "files (snd (?R (snd (?R w)))) = files (snd (?R w)) @ drop (length (files w)) (files (snd (?R w)))"
         "dirs (snd (?R (snd (?R w)))) = insert (resolve_output_dir gif_path od) (dirs (snd (?R w)))"
      using extract_frames_loop [where w = "snd (?R w)" and od = od, OF _ _ refl loop(3,4,5)]
      by (simp_all add: a)
    have c: "files (snd (?R w)) = files w @ drop (length (files w)) (files (snd (?R w)))"
      by (simp add: a)
    have "map_of (rev ((files w @ drop (length (files w)) (files (snd (?R w))))
                        @ drop (length (files w)) (files (snd (?R w)))))
           = map_of (rev (files w @ drop (length (files w)) (files (snd (?R w)))))"
      by (rule map_of_saved_twice)
    then have fa: "file_at (snd (?R (snd (?R w)))) = file_at (snd (?R w))"
      unfolding file_at_def b(2) using c by simp
    have sv: "saved (snd (?R w)) (snd (?R (snd (?R w)))) = saved w (snd (?R w))"
      by (simp add: saved_def b(2))
    have ds: "dirs (snd (?R (snd (?R w)))) = dirs (snd (?R w))"
      by (simp add: b(3) a(3))
    have ok: "(case fst (?R w) of Inl e \<Rightarrow> True | Inr (d, n) \<Rightarrow> d \<in> dirs (snd (?R w)))"
      by (simp add: a(1,3))
    from b(1) sv fa ds ok show ?thesis by simp
  qed
qed

text \<open>
  Claim C7. Run \<open>extract_frames\<close> in a world \<open>w\<close>, reaching \<open>w1\<close>, and again with the
  same arguments in \<open>w1\<close>, reaching \<open>w2\<close>. As the claim supposes, the input is
  unchanged between the runs (in this model saving a still image does not change what the
  decoder returns for a path) and decoding is a function of the container. Then the
  second run returns what the first returned, saves the same paths
  with the same contents in the same order, leaves every path holding what it held after
  the first run (each file is overwritten with identical content) and leaves the
  directories as they were; when the first run succeeded, its output directory exists
  before the second run starts, which succeeds all the same.
\<close>

theorem extract_frames_idempotent:
  assumes "extract_frames gif_path max_frames skip output_dir w = (r1, w1)"
    and "extract_frames gif_path max_frames skip output_dir w1 = (r2, w2)"
  shows "r2 = r1
         \<and> saved w1 w2 = saved w w1
         \<and> file_at w2 = file_at w1
         \<and> dirs w2 = dirs w1
         \<and> (case r1 of Inl e \<Rightarrow> True | Inr (d, n) \<Rightarrow> d \<in> dirs w1)"
proof -
  have 1: "r1 = fst (extract_frames gif_path max_frames skip output_dir w)"
    "w1 = snd (extract_frames gif_path max_frames skip output_dir w)"
    by (simp_all add: assms(1))
  have 2: "r2 = fst (extract_frames gif_path max_frames skip output_dir w1)"
    "w2 = snd (extract_frames gif_path max_frames skip output_dir w1)"
    by (simp_all add: assms(2))
  show ?thesis
    unfolding 2 unfolding 1
    by (rule extract_frames_rerun)
qed

text \<open>Scenario E of the specification, run twice.\<close>

theorem extract_frames_idempotent_witness:
  "fst (extract_frames ''clip.gif'' 30 (Some 5) (Some ''out'') (disk ''clip.gif'' (animation 12)))
     = Inr (''out'', 3)
   \<and> fst (extract_frames ''clip.gif'' 30 (Some 5) (Some ''out'')
           (snd (extract_frames ''clip.gif'' 30 (Some 5) (Some ''out'')
                   (disk ''clip.gif'' (animation 12)))))
       = Inr (''out'', 3)
   \<and> saved (snd (extract_frames ''clip.gif'' 30 (Some 5) (Some ''out'')
                   (disk ''clip.gif'' (animation 12))))
         (snd (extract_frames ''clip.gif'' 30 (Some 5) (Some ''out'')
                 (snd (extract_frames ''clip.gif'' 30 (Some 5) (Some ''out'')
                         (disk ''clip.gif'' (animation 12))))))
       = [(''out/frame_000_f0_d40ms.png'', [0]),
          (''out/frame_001_f5_d0ms.png'', [5]),
          (''out/frame_002_f10_d40ms.png'', [10])]
   \<and> file_at (snd (extract_frames ''clip.gif'' 30 (Some 5) (Some ''out'')
                 (snd (extract_frames ''clip.gif'' 30 (Some 5) (Some ''out'')
                         (disk ''clip.gif'' (animation 12))))))
         ''out/frame_001_f5_d0ms.png''
       = Some [5]"
proof -
  let ?w = "disk ''clip.gif'' (animation 12)"
  let ?R = "extract_frames ''clip.gif'' 30 (Some 5) (Some ''out'')"
  have a: "fst (?R ?w) = Inr (''out'', 3)"
    by code_simp
  have b: "saved ?w (snd (?R ?w))
             = [(''out/frame_000_f0_d40ms.png'', [0]),
                (''out/frame_001_f5_d0ms.png'', [5]),
                (''out/frame_002_f10_d40ms.png'', [10])]"
    by code_simp
  have c: "file_at (snd (?R ?w)) ''out/frame_001_f5_d0ms.png'' = Some [5]"
    by code_simp
  have "fst (?R (snd (?R ?w))) = fst (?R ?w)
        \<and> saved (snd (?R ?w)) (snd (?R (snd (?R ?w)))) = saved ?w (snd (?R ?w))
        \<and> file_at (snd (?R (snd (?R ?w)))) = file_at (snd (?R ?w))
        \<and> dirs (snd (?R (snd (?R ?w)))) = dirs (snd (?R ?w))
        \<and> (case fst (?R ?w) of Inl e \<Rightarrow> True | Inr (d, n) \<Rightarrow> d \<in> dirs (snd (?R ?w)))"
    by (rule extract_frames_idempotent) simp_all
  then show ?thesis
    by (simp only: a b c)
qed

section \<open>Tokens the scanner does not recognise\<close>

lemma parse_args_skips:
  "\<forall>t \<in> set us. t \<notin> {''--max-frames'', ''--skip'', ''--output-dir''} \<Longrightarrow>
   parse_args py_int (us @ rest) st = parse_args py_int rest st"
proof (induction us)
  case Nil
  then show ?case by simp
next
  case (Cons u us)
  obtain m s od where st: "st = (m, s, od)" by (cases st)
  from Cons.prems have u: "u \<noteq> ''--max-frames''" "u \<noteq> ''--skip''" "u \<noteq> ''--output-dir''"
    by simp_all
  from Cons have IH: "parse_args py_int (us @ rest) st = parse_args py_int rest st"
    by simp
  show ?case
  proof (cases "us @ rest")
    case Nil
    then show ?thesis by simp
  next
    case (Cons v r)
    then have "parse_args py_int ((u # us) @ rest) st = parse_args py_int (us @ rest) st"
      using u by (simp add: st)
    with IH show ?thesis by simp
  qed
qed

text \<open>
  Claim C8. The scanner looks at a token either as a flag or, right after
  \<^verbatim>\<open>--max-frames\<close>, \<^verbatim>\<open>--skip\<close> or \<^verbatim>\<open>--output-dir\<close>, as that flag's value. Whatever
  the scanner's state: tokens it looks at as flags and that are none of the three are
  passed over one by one, raising nothing, and the tokens after them are parsed as if the
  passed ones were absent; one of the three flags as the last token, with no value after
  it, is passed over as well; and the whole script run on a command line with such tokens
  after the container path does what it does without them.
\<close>

theorem unknown_tokens_skipped:
  assumes "\<forall>t \<in> set us. t \<notin> {''--max-frames'', ''--skip'', ''--output-dir''}"
  shows "parse_args py_int (us @ rest) st = parse_args py_int rest st
         \<and> parse_args py_int [a] st = parse_args py_int [] st
         \<and> main doc py_int (prog # gif_path # us @ rest) w
             = main doc py_int (prog # gif_path # rest) w"
  by (simp add: parse_args_skips [OF assms] main_def split: sum.split prod.split)

text \<open>
  Two unknown tokens before \<^verbatim>\<open>--max-frames 5\<close>, and a trailing \<^verbatim>\<open>--skip\<close> without
  a value.
\<close>

theorem unknown_tokens_skipped_witness:
  "parse_args (\<lambda>s. if s = ''5'' then Some 5 else None)
       ([''--fps'', ''10''] @ [''--max-frames'', ''5'', ''--skip''])
       (30, None, None)
     = Inr (5, None, None)
   \<and> parse_args (\<lambda>s. if s = ''5'' then Some 5 else None)
       [''--max-frames'', ''5'', ''--skip''] (30, None, None)
     = Inr (5, None, None)"
  using unknown_tokens_skipped [where us = "[''--fps'', ''10'']"
      and rest = "[''--max-frames'', ''5'', ''--skip'']"
      and py_int = "\<lambda>s. if s = ''5'' then Some 5 else None"
      and st = "(30, None, None)"]
  by simp

end
